theory Spec2Isabelle
  imports Main
begin

section \<open>Documents and the object store\<close>

text \<open>
  A document as a parser hands it over: a tree of mappings (ordered, keyed by strings),
  sequences and scalars. The association list of a mapping is in the order in which
  the runtime enumerates the keys. Numbers are carried as integers; the code only ever
  asks whether a number is zero.
\<close>

datatype json =
    JNull
  | JBool bool
  | JNum int
  | JStr string
  | JArr "json list"
  | JObj "(string \<times> json) list"

text \<open>
  The code works on objects in memory: it assigns to properties in place and hands out
  references to nodes of the input document. A value is therefore a scalar or a
  reference into a store of cells; a cell is an object (its own properties, in
  enumeration order) or an array.
\<close>

datatype val = Undefined | Null | Bool bool | Num int | Str string | Ref nat

datatype cell = Obj "(string \<times> val) list" | Arr "val list"

type_synonym heap = "cell list"

text \<open>
  \<open>Error msg\<close> is \<^verbatim>\<open>new Error(msg)\<close>; \<open>TypeError\<close> is the runtime's own exception
  (reading a property of \<^verbatim>\<open>null\<close>, calling something that is no function, assigning to
  a character of a string in a module, which is strict code).
\<close>

datatype error = Error string | TypeError

text \<open>Building a tree in the store, children first; this is what parsing does.\<close>

fun alloc :: "heap \<Rightarrow> json \<Rightarrow> heap \<times> val"
  and alloc_list :: "heap \<Rightarrow> json list \<Rightarrow> heap \<times> val list"
  and alloc_fields :: "heap \<Rightarrow> (string \<times> json) list \<Rightarrow> heap \<times> (string \<times> val) list" where
  "alloc h JNull = (h, Null)"
| "alloc h (JBool b) = (h, Bool b)"
| "alloc h (JNum n) = (h, Num n)"
| "alloc h (JStr s) = (h, Str s)"
| "alloc h (JArr js) = (case alloc_list h js of (h', vs) \<Rightarrow> (h' @ [Arr vs], Ref (length h')))"
| "alloc h (JObj kjs) = (case alloc_fields h kjs of (h', kvs) \<Rightarrow> (h' @ [Obj kvs], Ref (length h')))"
| "alloc_list h [] = (h, [])"
| "alloc_list h (j # js) =
     (case alloc h j of (h1, v) \<Rightarrow> (case alloc_list h1 js of (h2, vs) \<Rightarrow> (h2, v # vs)))"
| "alloc_fields h [] = (h, [])"
| "alloc_fields h ((k, j) # kjs) =
     (case alloc h j of (h1, v) \<Rightarrow>
        (case alloc_fields h1 kjs of (h2, kvs) \<Rightarrow> (h2, (k, v) # kvs)))"

definition cell_at :: "heap \<Rightarrow> nat \<Rightarrow> cell option" where
  "cell_at h a = (if a < length h then Some (h ! a) else None)"

text \<open>
  Deep equality of a value in the store with a document: same kind of node, same keys
  in the same order, deep-equal children.
\<close>

fun repr :: "heap \<Rightarrow> val \<Rightarrow> json \<Rightarrow> bool"
  and repr_list :: "heap \<Rightarrow> val list \<Rightarrow> json list \<Rightarrow> bool"
  and repr_fields :: "heap \<Rightarrow> (string \<times> val) list \<Rightarrow> (string \<times> json) list \<Rightarrow> bool" where
  "repr h v JNull = (v = Null)"
| "repr h v (JBool b) = (v = Bool b)"
| "repr h v (JNum n) = (v = Num n)"
| "repr h v (JStr s) = (v = Str s)"
| "repr h v (JArr js) =
     (case v of Ref a \<Rightarrow> (case cell_at h a of Some (Arr vs) \<Rightarrow> repr_list h vs js | _ \<Rightarrow> False)
              | _ \<Rightarrow> False)"
| "repr h v (JObj kjs) =
     (case v of Ref a \<Rightarrow> (case cell_at h a of Some (Obj kvs) \<Rightarrow> repr_fields h kvs kjs | _ \<Rightarrow> False)
              | _ \<Rightarrow> False)"
| "repr_list h [] [] = True"
| "repr_list h (v # vs) (j # js) = (repr h v j \<and> repr_list h vs js)"
| "repr_list h [] (j # js) = False"
| "repr_list h (v # vs) [] = False"
| "repr_fields h [] [] = True"
| "repr_fields h ((k, v) # kvs) ((k', j) # kjs) = (k = k' \<and> repr h v j \<and> repr_fields h kvs kjs)"
| "repr_fields h [] (kj # kjs) = False"
| "repr_fields h (kv # kvs) [] = False"

section \<open>The runtime's primitives\<close>

text \<open>\<^verbatim>\<open>!x\<close> is false exactly for the truthy values.\<close>

fun truthy :: "val \<Rightarrow> bool" where
  "truthy Undefined = False"
| "truthy Null = False"
| "truthy (Bool b) = b"
| "truthy (Num n) = (n \<noteq> 0)"
| "truthy (Str s) = (s \<noteq> [])"
| "truthy (Ref a) = True"

text \<open>
  A key is an array index when it is the canonical decimal numeral of a number below
  \<open>2^32 - 1 = 4294967295\<close>; the bound is checked on the digits.
\<close>

definition is_digit :: "char \<Rightarrow> bool" where
  "is_digit c = (c \<in> set ''0123456789'')"

definition digit_val :: "char \<Rightarrow> nat" where
  "digit_val c = of_char c - 48"

fun digits_less :: "string \<Rightarrow> string \<Rightarrow> bool" where
  "digits_less (c # cs) (d # ds) =
     (digit_val c < digit_val d \<or> (digit_val c = digit_val d \<and> digits_less cs ds))"
| "digits_less cs ds = False"

definition array_index :: "string \<Rightarrow> nat option" where
  "array_index s =
     (if s = [] then None
      else if list_all is_digit s then
        (if hd s = CHR ''0'' \<and> s \<noteq> ''0'' then None
         else if length s < 10 \<or> (length s = 10 \<and> digits_less s ''4294967295'')
         then Some (foldl (\<lambda>acc c. 10 * acc + digit_val c) 0 s)
         else None)
      else None)"

text \<open>
  \<open>js_get h v k\<close> is the property read \<^verbatim>\<open>v[k]\<close> for a value that is neither \<^verbatim>\<open>null\<close> nor
  \<^verbatim>\<open>undefined\<close>: an own property of an object, an element or the length of an array, a
  character or the length of a string. Members inherited from the built-in prototypes
  (\<^verbatim>\<open>constructor\<close>, \<^verbatim>\<open>toString\<close>, ...) are left out: no document names them.
  \<open>get_prop\<close> is the read in general, which throws on \<^verbatim>\<open>null\<close> and \<^verbatim>\<open>undefined\<close>.
\<close>

definition lookup :: "(string \<times> val) list \<Rightarrow> string \<Rightarrow> val" where
  "lookup kvs k = (case map_of kvs k of Some v \<Rightarrow> v | None \<Rightarrow> Undefined)"

fun js_get :: "heap \<Rightarrow> val \<Rightarrow> string \<Rightarrow> val" where
  "js_get h (Ref a) k =
     (case cell_at h a of
        None \<Rightarrow> Undefined
      | Some (Obj kvs) \<Rightarrow> lookup kvs k
      | Some (Arr vs) \<Rightarrow>
          (if k = ''length'' then Num (int (length vs))
           else case array_index k of
                  Some i \<Rightarrow> if i < length vs then vs ! i else Undefined
                | None \<Rightarrow> Undefined))"
| "js_get h (Str s) k =
     (if k = ''length'' then Num (int (length s))
      else case array_index k of
             Some i \<Rightarrow> if i < length s then Str [s ! i] else Undefined
           | None \<Rightarrow> Undefined)"
| "js_get h v k = Undefined"

fun get_prop :: "heap \<Rightarrow> val \<Rightarrow> string \<Rightarrow> error + val" where
  "get_prop h Undefined k = Inl TypeError"
| "get_prop h Null k = Inl TypeError"
| "get_prop h v k = Inr (js_get h v k)"

text \<open>
  \<^verbatim>\<open>for (const key in x)\<close> over an object visits its keys, over an array its indices;
  the body reads and assigns \<^verbatim>\<open>x[key]\<close>.
\<close>

datatype pkey = Name string | Index nat

definition own_keys :: "heap \<Rightarrow> nat \<Rightarrow> pkey list" where
  "own_keys h a =
     (case cell_at h a of
        None \<Rightarrow> []
      | Some (Obj kvs) \<Rightarrow> map (\<lambda>kv. Name (fst kv)) kvs
      | Some (Arr vs) \<Rightarrow> map Index [0..<length vs])"

definition get_key :: "heap \<Rightarrow> nat \<Rightarrow> pkey \<Rightarrow> val" where
  "get_key h a key =
     (case cell_at h a of
        Some (Obj kvs) \<Rightarrow> (case key of Name k \<Rightarrow> lookup kvs k | Index i \<Rightarrow> Undefined)
      | Some (Arr vs) \<Rightarrow>
          (case key of Index i \<Rightarrow> if i < length vs then vs ! i else Undefined
                     | Name k \<Rightarrow> Undefined)
      | None \<Rightarrow> Undefined)"

text \<open>
  Assigning a property: an existing key keeps its place; a new key goes behind the
  others, except that array-index keys come first, in ascending order.
\<close>

definition key_before :: "string \<Rightarrow> string \<Rightarrow> bool" where
  "key_before k k' =
     (case array_index k of
        None \<Rightarrow> False
      | Some i \<Rightarrow> (case array_index k' of None \<Rightarrow> True | Some i' \<Rightarrow> i < i'))"

fun upd :: "string \<Rightarrow> val \<Rightarrow> (string \<times> val) list \<Rightarrow> (string \<times> val) list" where
  "upd k v [] = []"
| "upd k v ((k', v') # kvs) = (if k' = k then (k, v) # kvs else (k', v') # upd k v kvs)"

fun ins :: "string \<Rightarrow> val \<Rightarrow> (string \<times> val) list \<Rightarrow> (string \<times> val) list" where
  "ins k v [] = [(k, v)]"
| "ins k v ((k', v') # kvs) =
     (if key_before k k' then (k, v) # (k', v') # kvs else (k', v') # ins k v kvs)"

definition put :: "string \<Rightarrow> val \<Rightarrow> (string \<times> val) list \<Rightarrow> (string \<times> val) list" where
  "put k v kvs = (if map_of kvs k = None then ins k v kvs else upd k v kvs)"

definition set_key :: "heap \<Rightarrow> nat \<Rightarrow> pkey \<Rightarrow> val \<Rightarrow> heap" where
  "set_key h a key v =
     (case cell_at h a of
        Some (Obj kvs) \<Rightarrow> (case key of Name k \<Rightarrow> h[a := Obj (put k v kvs)] | Index i \<Rightarrow> h)
      | Some (Arr vs) \<Rightarrow>
          (case key of
             Index i \<Rightarrow>
               (if i < length vs then h[a := Arr (vs[i := v])]
                else h[a := Arr (vs @ replicate (i - length vs) Undefined @ [v])])
           | Name k \<Rightarrow> h)
      | None \<Rightarrow> h)"

section \<open>resolveRef\<close>

text \<open>\<^verbatim>\<open>s.replace(/^#\//, '').split('/')\<close>\<close>

fun strip_fragment :: "string \<Rightarrow> string" where
  "strip_fragment (c # d # s) = (if c = CHR ''#'' \<and> d = CHR ''/'' then s else c # d # s)"
| "strip_fragment s = s"

fun split_slash :: "string \<Rightarrow> string list" where
  "split_slash [] = [[]]"
| "split_slash (c # cs) =
     (if c = CHR ''/'' then [] # split_slash cs
      else (case split_slash cs of w # ws \<Rightarrow> (c # w) # ws | [] \<Rightarrow> [[c]]))"

definition resolve_msg :: "string \<Rightarrow> string" where
  "resolve_msg ref = ''Could not resolve $ref path: '' @ ref"

text \<open>The loop of \<^verbatim>\<open>resolveRef\<close> over the parts of the pointer (lines 138-141).\<close>

fun walk_path :: "heap \<Rightarrow> val \<Rightarrow> string list \<Rightarrow> string \<Rightarrow> error + val" where
  "walk_path h derefObj [] ref = Inr derefObj"
| "walk_path h derefObj (part # rest) ref =
     (case get_prop h derefObj part of
        Inl e \<Rightarrow> Inl e
      | Inr v \<Rightarrow> if \<not> truthy v then Inl (Error (resolve_msg ref)) else walk_path h v rest ref)"

text \<open>
  \<^verbatim>\<open>resolveRef(obj, api)\<close> (lines 134-152). The recursion follows pointers through the
  store, so it is bounded by a budget of nested calls: \<open>None\<close> means that the budget
  did not suffice (a reference cycle never returns). \<open>resolveRef_each\<close> is the
  \<^verbatim>\<open>for ... in\<close> loop of lines 146-148 over the keys still to visit.
\<close>

fun resolveRef :: "nat \<Rightarrow> heap \<Rightarrow> val \<Rightarrow> val \<Rightarrow> (error + heap \<times> val) option"
  and resolveRef_each :: "nat \<Rightarrow> heap \<Rightarrow> nat \<Rightarrow> pkey list \<Rightarrow> val \<Rightarrow> (error + heap) option" where
  "resolveRef 0 h obj api = None"
| "resolveRef (Suc n) h obj api =
     (if truthy obj \<and> truthy (js_get h obj ''$ref'') then
        (case js_get h obj ''$ref'' of
           Str s \<Rightarrow>
             (case walk_path h api (split_slash (strip_fragment s)) s of
                Inl e \<Rightarrow> Some (Inl e)
              | Inr derefObj \<Rightarrow> resolveRef n h derefObj api)
         | _ \<Rightarrow> Some (Inl TypeError))
      else
        (case obj of
           Ref a \<Rightarrow>
             (case resolveRef_each n h a (own_keys h a) api of
                None \<Rightarrow> None
              | Some (Inl e) \<Rightarrow> Some (Inl e)
              | Some (Inr h') \<Rightarrow> Some (Inr (h', obj)))
         | _ \<Rightarrow> Some (Inr (h, obj))))"
| "resolveRef_each n h a [] api = Some (Inr h)"
| "resolveRef_each n h a (key # keys) api =
     (case resolveRef n h (get_key h a key) api of
        None \<Rightarrow> None
      | Some (Inl e) \<Rightarrow> Some (Inl e)
      | Some (Inr (h', v)) \<Rightarrow> resolveRef_each n (set_key h' a key v) a keys api)"

section \<open>dereferenceApi\<close>

text \<open>
  \<^verbatim>\<open>processSchema(schema)\<close> (lines 9-25), a closure over the caller's \<^verbatim>\<open>apiDoc\<close>, and
  its loop (lines 19-21).
\<close>

fun processSchema :: "nat \<Rightarrow> heap \<Rightarrow> val \<Rightarrow> val \<Rightarrow> (error + heap \<times> val) option"
  and processSchema_each :: "nat \<Rightarrow> heap \<Rightarrow> nat \<Rightarrow> pkey list \<Rightarrow> val \<Rightarrow> (error + heap) option" where
  "processSchema 0 h schema apiDoc = None"
| "processSchema (Suc n) h schema apiDoc =
     (if \<not> truthy schema then Some (Inr (h, schema))
      else
        (case (if truthy (js_get h schema ''$ref'') then resolveRef n h schema apiDoc
               else Some (Inr (h, schema))) of
           None \<Rightarrow> None
         | Some (Inl e) \<Rightarrow> Some (Inl e)
         | Some (Inr (h1, schema1)) \<Rightarrow>
             (case schema1 of
                Ref a \<Rightarrow>
                  (case processSchema_each n h1 a (own_keys h1 a) apiDoc of
                     None \<Rightarrow> None
                   | Some (Inl e) \<Rightarrow> Some (Inl e)
                   | Some (Inr h2) \<Rightarrow> Some (Inr (h2, schema1)))
              | _ \<Rightarrow> Some (Inr (h1, schema1)))))"
| "processSchema_each n h a [] apiDoc = Some (Inr h)"
| "processSchema_each n h a (key # keys) apiDoc =
     (case processSchema n h (get_key h a key) apiDoc of
        None \<Rightarrow> None
      | Some (Inl e) \<Rightarrow> Some (Inl e)
      | Some (Inr (h', v)) \<Rightarrow> processSchema_each n (set_key h' a key v) a keys apiDoc)"

text \<open>
  Modelled from the spec: the path query engine (PathSelector, an external library),
  for path expressions that are a chain of child steps from the root: \<open>[]\<close> is \<^verbatim>\<open>$\<close>,
  \<open>[''components'', ''responses'']\<close> is \<^verbatim>\<open>$.components.responses\<close>. A step selects an own
  key of a mapping or an index of a sequence; the query returns the matching nodes, none
  when a step finds nothing. Wildcards, filters and recursive descent are not modelled.
\<close>

definition child :: "heap \<Rightarrow> val \<Rightarrow> string \<Rightarrow> val option" where
  "child h v k =
     (case v of
        Ref a \<Rightarrow>
          (case cell_at h a of
             Some (Obj kvs) \<Rightarrow> map_of kvs k
           | Some (Arr vs) \<Rightarrow>
               (case array_index k of
                  Some i \<Rightarrow> if i < length vs then Some (vs ! i) else None
                | None \<Rightarrow> None)
           | None \<Rightarrow> None)
      | _ \<Rightarrow> None)"

fun JSONPath :: "heap \<Rightarrow> val \<Rightarrow> string list \<Rightarrow> val list" where
  "JSONPath h v [] = [v]"
| "JSONPath h v (k # ks) = (case child h v k of None \<Rightarrow> [] | Some v' \<Rightarrow> JSONPath h v' ks)"

text \<open>
  \<^verbatim>\<open>dereferenceApi(apiDoc, startAt)\<close> (lines 3-51). The caller's document is a tree in
  the store; \<^verbatim>\<open>JSON.parse(JSON.stringify(apiDoc))\<close> builds a second, separate tree of the
  same shape. The second path query (lines 43-48) is evaluated for its callback only:
  its value is discarded and a query does not change the tree it runs on, so the
  returned document is \<^verbatim>\<open>dereferencedDoc\<close> as the in-place assignments of
  \<^verbatim>\<open>processSchema\<close> left it. The result is the final store, the caller's document and
  the returned value (\<open>Undefined\<close> when \<^verbatim>\<open>startAt\<close> matches nothing).
\<close>

definition dereferenceApi :: "nat \<Rightarrow> json \<Rightarrow> string list \<Rightarrow> (error + heap \<times> val \<times> val) option" where
  "dereferenceApi n D startAt =
     (case alloc [] D of (h0, apiDoc) \<Rightarrow>
      case alloc h0 D of (h1, dereferencedDoc) \<Rightarrow>
        (case JSONPath h1 dereferencedDoc startAt of
           [] \<Rightarrow> Some (Inr (h1, apiDoc, Undefined))
         | startSchema0 # _ \<Rightarrow>
             (case processSchema n h1 startSchema0 apiDoc of
                None \<Rightarrow> None
              | Some (Inl e) \<Rightarrow> Some (Inl e)
              | Some (Inr (h2, processedSection)) \<Rightarrow> Some (Inr (h2, apiDoc, dereferencedDoc)))))"

section \<open>flattenAllOf\<close>

text \<open>
  Object spread \<^verbatim>\<open>{...x}\<close> copies the own enumerable properties of \<^verbatim>\<open>x\<close>: the entries of
  an object, the elements of an array and the characters of a string under their
  indices, nothing for the other values. An object literal defines its properties from
  left to right.
\<close>

fun digits :: "nat \<Rightarrow> nat \<Rightarrow> string" where
  "digits 0 n = []"
| "digits (Suc f) n = (if n < 10 then [char_of (48 + n)] else digits f (n div 10) @ [char_of (48 + n mod 10)])"

definition string_of_nat :: "nat \<Rightarrow> string" where
  "string_of_nat n = digits (Suc n) n"

definition indexed :: "val list \<Rightarrow> (string \<times> val) list" where
  "indexed vs = zip (map string_of_nat [0..<length vs]) vs"

fun spread :: "heap \<Rightarrow> val \<Rightarrow> (string \<times> val) list" where
  "spread h (Ref a) =
     (case cell_at h a of None \<Rightarrow> [] | Some (Obj kvs) \<Rightarrow> kvs | Some (Arr vs) \<Rightarrow> indexed vs)"
| "spread h (Str s) = indexed (map (\<lambda>c. Str [c]) s)"
| "spread h v = []"

fun put_all :: "(string \<times> val) list \<Rightarrow> (string \<times> val) list \<Rightarrow> (string \<times> val) list" where
  "put_all acc [] = acc"
| "put_all acc ((k, v) # kvs) = put_all (put k v acc) kvs"

definition alloc_obj :: "heap \<Rightarrow> (string \<times> val) list \<Rightarrow> heap \<times> nat" where
  "alloc_obj h kvs = (h @ [Obj kvs], length h)"

text \<open>\<^verbatim>\<open>...(x || {})\<close>: the entries of \<^verbatim>\<open>x\<close>, none when \<^verbatim>\<open>x\<close> is falsy.\<close>

definition spread_or_empty :: "heap \<Rightarrow> val \<Rightarrow> (string \<times> val) list" where
  "spread_or_empty h v = (if truthy v then spread h v else [])"

text \<open>
  The function passed to \<^verbatim>\<open>reduce\<close> (lines 59-68): a new object for \<^verbatim>\<open>properties\<close> and
  a new object for the result. \<^verbatim>\<open>subSchema.properties\<close> throws when the member is
  \<^verbatim>\<open>null\<close>.
\<close>

definition merge_step :: "heap \<Rightarrow> nat \<Rightarrow> val \<Rightarrow> error + heap \<times> nat" where
  "merge_step h merged subSchema =
     (case get_prop h subSchema ''properties'' of
        Inl e \<Rightarrow> Inl e
      | Inr sp \<Rightarrow>
          (case alloc_obj h (put_all (put_all [] (spread_or_empty h (js_get h (Ref merged) ''properties'')))
                                     (spread_or_empty h sp)) of
             (h1, p) \<Rightarrow>
               Inr (alloc_obj h1
                      (put_all (put_all (put_all [] (spread h (Ref merged))) (spread h subSchema))
                         [(''properties'', Ref p)]))))"

fun reduce_allOf :: "heap \<Rightarrow> nat \<Rightarrow> val list \<Rightarrow> error + heap \<times> nat" where
  "reduce_allOf h merged [] = Inr (h, merged)"
| "reduce_allOf h merged (subSchema # rest) =
     (case merge_step h merged subSchema of
        Inl e \<Rightarrow> Inl e
      | Inr (h', merged') \<Rightarrow> reduce_allOf h' merged' rest)"

text \<open>\<^verbatim>\<open>Array.isArray(v)\<close>, with the elements.\<close>

definition elements :: "heap \<Rightarrow> val \<Rightarrow> val list option" where
  "elements h v =
     (case v of
        Ref a \<Rightarrow> (case cell_at h a of Some (Arr vs) \<Rightarrow> Some vs | _ \<Rightarrow> None)
      | _ \<Rightarrow> None)"

definition delete_key :: "heap \<Rightarrow> nat \<Rightarrow> string \<Rightarrow> heap" where
  "delete_key h a k =
     (case cell_at h a of
        Some (Obj kvs) \<Rightarrow> h[a := Obj (filter (\<lambda>kv. fst kv \<noteq> k) kvs)]
      | _ \<Rightarrow> h)"

text \<open>
  Lines 57-72 for an object \<open>a\<close>: with an array under \<^verbatim>\<open>allOf\<close>, \<^verbatim>\<open>schema\<close> becomes the
  merged object, from which \<^verbatim>\<open>allOf\<close> is deleted; otherwise it stays \<open>a\<close>.
\<close>

definition flatten_node :: "heap \<Rightarrow> nat \<Rightarrow> error + heap \<times> nat" where
  "flatten_node h a =
     (case elements h (js_get h (Ref a) ''allOf'') of
        None \<Rightarrow> Inr (h, a)
      | Some members \<Rightarrow>
          (case alloc_obj h [] of
             (h0, initial) \<Rightarrow>
               (case reduce_allOf h0 initial members of
                  Inl e \<Rightarrow> Inl e
                | Inr (h1, merged) \<Rightarrow> Inr (delete_key h1 merged ''allOf'', merged))))"

text \<open>\<^verbatim>\<open>processAllOf(schema)\<close> (lines 54-80) and its loop (lines 75-77).\<close>

fun processAllOf :: "nat \<Rightarrow> heap \<Rightarrow> val \<Rightarrow> (error + heap \<times> val) option"
  and processAllOf_each :: "nat \<Rightarrow> heap \<Rightarrow> nat \<Rightarrow> pkey list \<Rightarrow> (error + heap) option" where
  "processAllOf 0 h schema = None"
| "processAllOf (Suc n) h schema =
     (case schema of
        Ref a \<Rightarrow>
          (case flatten_node h a of
             Inl e \<Rightarrow> Some (Inl e)
           | Inr (h1, a1) \<Rightarrow>
               (case processAllOf_each n h1 a1 (own_keys h1 a1) of
                  None \<Rightarrow> None
                | Some (Inl e) \<Rightarrow> Some (Inl e)
                | Some (Inr h2) \<Rightarrow> Some (Inr (h2, Ref a1))))
      | _ \<Rightarrow> Some (Inr (h, schema)))"
| "processAllOf_each n h a [] = Some (Inr h)"
| "processAllOf_each n h a (key # keys) =
     (case processAllOf n h (get_key h a key) of
        None \<Rightarrow> None
      | Some (Inl e) \<Rightarrow> Some (Inl e)
      | Some (Inr (h', v)) \<Rightarrow> processAllOf_each n (set_key h' a key v) a keys)"

text \<open>
  \<^verbatim>\<open>flattenAllOf(apiDoc)\<close> (lines 53-86): the value of \<^verbatim>\<open>processAllOf(flattenedDoc)\<close> is
  not used; the clone is returned.
\<close>

definition flattenAllOf :: "nat \<Rightarrow> json \<Rightarrow> (error + heap \<times> val \<times> val) option" where
  "flattenAllOf n D =
     (case alloc [] D of (h0, apiDoc) \<Rightarrow>
      case alloc h0 D of (h1, flattenedDoc) \<Rightarrow>
        (case processAllOf n h1 flattenedDoc of
           None \<Rightarrow> None
         | Some (Inl e) \<Rightarrow> Some (Inl e)
         | Some (Inr (h2, discarded)) \<Rightarrow> Some (Inr (h2, apiDoc, flattenedDoc))))"

section \<open>selectFirstOfOneOf and selectFirstOfAnyOf\<close>

text \<open>
  \<^verbatim>\<open>processOneOf\<close> (lines 89-103) and \<^verbatim>\<open>processAnyOf\<close> (lines 112-126) are the same text
  up to the keyword, which is the parameter \<open>kw\<close> here. With an array under the keyword,
  \<^verbatim>\<open>schema\<close> becomes its element 0 (\<^verbatim>\<open>undefined\<close> for an empty array). The loop then runs
  over whatever \<^verbatim>\<open>schema\<close> is: the keys of an object or array, nothing for a number,
  boolean, \<^verbatim>\<open>null\<close>, \<^verbatim>\<open>undefined\<close> or the empty string; for a non-empty string the first
  assignment \<^verbatim>\<open>schema[key] = ...\<close> throws.
\<close>

definition first_of :: "heap \<Rightarrow> val \<Rightarrow> string \<Rightarrow> val" where
  "first_of h schema kw =
     (case elements h (js_get h schema kw) of
        None \<Rightarrow> schema
      | Some alts \<Rightarrow> (case alts of [] \<Rightarrow> Undefined | x # xs \<Rightarrow> x))"

fun processFirstOf :: "string \<Rightarrow> nat \<Rightarrow> heap \<Rightarrow> val \<Rightarrow> (error + heap \<times> val) option"
  and processFirstOf_each :: "string \<Rightarrow> nat \<Rightarrow> heap \<Rightarrow> nat \<Rightarrow> pkey list \<Rightarrow> (error + heap) option" where
  "processFirstOf kw 0 h schema = None"
| "processFirstOf kw (Suc n) h schema =
     (case schema of
        Ref a \<Rightarrow>
          (case first_of h schema kw of
             Ref a1 \<Rightarrow>
               (case processFirstOf_each kw n h a1 (own_keys h a1) of
                  None \<Rightarrow> None
                | Some (Inl e) \<Rightarrow> Some (Inl e)
                | Some (Inr h') \<Rightarrow> Some (Inr (h', Ref a1)))
           | Str s \<Rightarrow> if s = [] then Some (Inr (h, Str s)) else Some (Inl TypeError)
           | v \<Rightarrow> Some (Inr (h, v)))
      | _ \<Rightarrow> Some (Inr (h, schema)))"
| "processFirstOf_each kw n h a [] = Some (Inr h)"
| "processFirstOf_each kw n h a (key # keys) =
     (case processFirstOf kw n h (get_key h a key) of
        None \<Rightarrow> None
      | Some (Inl e) \<Rightarrow> Some (Inl e)
      | Some (Inr (h', v)) \<Rightarrow> processFirstOf_each kw n (set_key h' a key v) a keys)"

definition processOneOf :: "nat \<Rightarrow> heap \<Rightarrow> val \<Rightarrow> (error + heap \<times> val) option" where
  "processOneOf = processFirstOf ''oneOf''"

definition processAnyOf :: "nat \<Rightarrow> heap \<Rightarrow> val \<Rightarrow> (error + heap \<times> val) option" where
  "processAnyOf = processFirstOf ''anyOf''"

text \<open>
  \<^verbatim>\<open>selectFirstOfOneOf(apiDoc)\<close> (lines 88-109) and \<^verbatim>\<open>selectFirstOfAnyOf(apiDoc)\<close>
  (lines 111-132): again the value of the helper is not used.
\<close>

definition selectFirstOfOneOf :: "nat \<Rightarrow> json \<Rightarrow> (error + heap \<times> val \<times> val) option" where
  "selectFirstOfOneOf n D =
     (case alloc [] D of (h0, apiDoc) \<Rightarrow>
      case alloc h0 D of (h1, processedDoc) \<Rightarrow>
        (case processOneOf n h1 processedDoc of
           None \<Rightarrow> None
         | Some (Inl e) \<Rightarrow> Some (Inl e)
         | Some (Inr (h2, discarded)) \<Rightarrow> Some (Inr (h2, apiDoc, processedDoc))))"

definition selectFirstOfAnyOf :: "nat \<Rightarrow> json \<Rightarrow> (error + heap \<times> val \<times> val) option" where
  "selectFirstOfAnyOf n D =
     (case alloc [] D of (h0, apiDoc) \<Rightarrow>
      case alloc h0 D of (h1, processedDoc) \<Rightarrow>
        (case processAnyOf n h1 processedDoc of
           None \<Rightarrow> None
         | Some (Inl e) \<Rightarrow> Some (Inl e)
         | Some (Inr (h2, discarded)) \<Rightarrow> Some (Inr (h2, apiDoc, processedDoc))))"

section \<open>What the claims speak about\<close>

text \<open>Some node of the document is a mapping with the key \<open>k\<close>.\<close>

fun has_key :: "string \<Rightarrow> json \<Rightarrow> bool"
  and has_key_list :: "string \<Rightarrow> json list \<Rightarrow> bool"
  and has_key_fields :: "string \<Rightarrow> (string \<times> json) list \<Rightarrow> bool" where
  "has_key k (JArr js) = has_key_list k js"
| "has_key k (JObj kjs) = has_key_fields k kjs"
| "has_key k JNull = False"
| "has_key k (JBool b) = False"
| "has_key k (JNum n) = False"
| "has_key k (JStr s) = False"
| "has_key_list k [] = False"
| "has_key_list k (j # js) = (has_key k j \<or> has_key_list k js)"
| "has_key_fields k [] = False"
| "has_key_fields k ((k', j) # kjs) = (k' = k \<or> has_key k j \<or> has_key_fields k kjs)"

text \<open>Nesting depth of a document.\<close>

fun depth :: "json \<Rightarrow> nat"
  and depth_list :: "json list \<Rightarrow> nat"
  and depth_fields :: "(string \<times> json) list \<Rightarrow> nat" where
  "depth (JArr js) = Suc (depth_list js)"
| "depth (JObj kjs) = Suc (depth_fields kjs)"
| "depth JNull = 0"
| "depth (JBool b) = 0"
| "depth (JNum n) = 0"
| "depth (JStr s) = 0"
| "depth_list [] = 0"
| "depth_list (j # js) = max (depth j) (depth_list js)"
| "depth_fields [] = 0"
| "depth_fields ((k, j) # kjs) = max (depth j) (depth_fields kjs)"

text \<open>The node of a document that a chain of child steps selects.\<close>

fun select :: "json \<Rightarrow> string list \<Rightarrow> json option" where
  "select D [] = Some D"
| "select D (k # ks) =
     (case D of
        JObj kjs \<Rightarrow> (case map_of kjs k of Some j \<Rightarrow> select j ks | None \<Rightarrow> None)
      | JArr js \<Rightarrow>
          (case array_index k of
             Some i \<Rightarrow> if i < length js then select (js ! i) ks else None
           | None \<Rightarrow> None)
      | _ \<Rightarrow> None)"

text \<open>
  Reading the outcome of a call: \<open>returns res D\<close> says that the call returned a
  document deep-equal to \<open>D\<close>; \<open>input_after res D\<close> says that the call returned and
  that the caller's own document is deep-equal to \<open>D\<close> afterwards; \<open>root_keys res\<close> is
  the key list of the returned document's root.
\<close>

definition returns :: "(error + heap \<times> val \<times> val) option \<Rightarrow> json \<Rightarrow> bool" where
  "returns res D = (case res of Some (Inr (h, apiDoc, r)) \<Rightarrow> repr h r D | _ \<Rightarrow> False)"

definition input_after :: "(error + heap \<times> val \<times> val) option \<Rightarrow> json \<Rightarrow> bool" where
  "input_after res D = (case res of Some (Inr (h, apiDoc, r)) \<Rightarrow> repr h apiDoc D | _ \<Rightarrow> False)"








text \<open>
  The shape of a cell (the key list of an object, the length of an array), and stores
  that grow without changing the shape of a cell they already have.
\<close>

definition shape :: "cell \<Rightarrow> string list + nat" where
  "shape c = (case c of Obj kvs \<Rightarrow> Inl (map fst kvs) | Arr vs \<Rightarrow> Inr (length vs))"

definition keeps :: "heap \<Rightarrow> heap \<Rightarrow> bool" where
  "keeps h h' = (length h \<le> length h' \<and> (\<forall>a<length h. shape (h' ! a) = shape (h ! a)))"


section \<open>Example documents\<close>


definition doc_root_ref :: json where
  "doc_root_ref = JObj [(''$ref'', JStr ''#/a''), (''a'', JObj [(''type'', JStr ''string'')])]"

definition doc_billing :: json where
  "doc_billing = JObj [(''components'', JObj
      [(''schemas'', JObj [(''A'', JObj [(''type'', JStr ''string'')])]),
       (''x-stackQL-resources'', JObj
          [(''r'', JObj [(''$ref'', JStr ''#/components/x-stackQL-resources/missing'')])])])]"

definition doc_nested_ref :: json where
  "doc_nested_ref = JObj [(''a'', JObj [(''$ref'', JStr ''#/b'')]),
                  (''b'', JObj [(''c'', JObj [(''$ref'', JStr ''#/d'')])]),
                  (''d'', JObj [(''type'', JStr ''string'')])]"

definition doc_nested_ref_after :: json where
  "doc_nested_ref_after = JObj [(''a'', JObj [(''$ref'', JStr ''#/b'')]),
                        (''b'', JObj [(''c'', JObj [(''type'', JStr ''string'')])]),
                        (''d'', JObj [(''type'', JStr ''string'')])]"

definition doc_root_allOf :: json where
  "doc_root_allOf = JObj [(''allOf'', JArr [JObj [(''type'', JStr ''object'')]])]"

definition doc_root_oneOf :: json where
  "doc_root_oneOf = JObj [(''oneOf'', JArr [JObj [(''type'', JStr ''string'')]])]"

definition doc_root_anyOf :: json where
  "doc_root_anyOf = JObj [(''anyOf'', JArr [JObj [(''type'', JStr ''string'')]])]"

definition doc_nested_oneOf :: json where
  "doc_nested_oneOf = JObj [(''a'', JObj [(''oneOf'', JArr
      [JObj [(''oneOf'', JArr [JObj [(''type'', JStr ''string'')]])]])])]"

definition doc_nested_oneOf_out :: json where
  "doc_nested_oneOf_out = JObj [(''a'', JObj [(''oneOf'', JArr [JObj [(''type'', JStr ''string'')]])])]"







section \<open>Trees in the store\<close>

lemma cell_at_append: "cell_at h a = Some c \<Longrightarrow> cell_at (h @ xs) a = Some c"
  by (auto simp: cell_at_def nth_append split: if_splits)

lemma upd_same: "map_of kvs k = Some v \<Longrightarrow> upd k v kvs = kvs"
  by (induction kvs) (auto split: if_splits)

lemma put_same: "map_of kvs k = Some v \<Longrightarrow> put k v kvs = kvs"
  by (simp add: put_def upd_same)

lemma set_key_same: "key \<in> set (own_keys h a) \<Longrightarrow> set_key h a key (get_key h a key) = h"
proof (cases "cell_at h a")
  case None
  then show ?thesis by (simp add: set_key_def)
next
  case (Some c)
  assume k: "key \<in> set (own_keys h a)"
  from Some have a: "a < length h" "h ! a = c"
    by (auto simp: cell_at_def split: if_splits)
  show ?thesis
  proof (cases c)
    case (Obj kvs)
    with k Some obtain k' where key: "key = Name k'" and "k' \<in> fst ` set kvs"
      by (auto simp: own_keys_def)
    then obtain v where v: "map_of kvs k' = Some v"
      by (metis domD dom_map_of_conv_image_fst)
    with Some Obj key a show ?thesis
      by (simp add: set_key_def get_key_def lookup_def put_same list_update_same_conv)
  next
    case (Arr vs)
    with k Some obtain i where "key = Index i" "i < length vs"
      by (auto simp: own_keys_def)
    with Some Arr a show ?thesis
      by (simp add: set_key_def get_key_def list_update_same_conv)
  qed
qed


lemma repr_fields_lookup:
  "repr_fields h kvs kjs \<Longrightarrow> map_of kvs k = Some v \<Longrightarrow> \<exists>j. map_of kjs k = Some j \<and> repr h v j"
proof (induction kvs arbitrary: kjs)
  case Nil
  then show ?case by simp
next
  case (Cons kv kvs)
  then show ?case by (cases kjs; cases kv) (auto split: if_splits)
qed

lemma repr_fields_lookup_rev:
  "repr_fields h kvs kjs \<Longrightarrow> map_of kjs k = Some j \<Longrightarrow> \<exists>v. map_of kvs k = Some v \<and> repr h v j"
proof (induction kvs arbitrary: kjs)
  case Nil
  then show ?case by (cases kjs) auto
next
  case (Cons kv kvs)
  then show ?case by (cases kjs; cases kv) (auto split: if_splits)
qed

lemma repr_list_nth:
  "repr_list h vs js \<Longrightarrow> length vs = length js \<and> (\<forall>i<length vs. repr h (vs ! i) (js ! i))"
proof (induction vs arbitrary: js)
  case Nil
  then show ?case by (cases js) auto
next
  case (Cons v vs)
  then show ?case by (cases js) (auto simp: nth_Cons split: nat.splits)
qed

lemma has_key_fields_lookup: "map_of kjs k = Some j \<Longrightarrow> has_key x j \<Longrightarrow> has_key_fields x kjs"
  by (induction kjs) (auto split: if_splits)

lemma has_key_fields_dom: "map_of kjs k = Some j \<Longrightarrow> has_key_fields k kjs"
  by (induction kjs) (auto split: if_splits)

lemma depth_fields_lookup: "map_of kjs k = Some j \<Longrightarrow> depth j \<le> depth_fields kjs"
  by (induction kjs) (auto split: if_splits)

lemma has_key_list_nth: "i < length js \<Longrightarrow> has_key x (js ! i) \<Longrightarrow> has_key_list x js"
  by (induction js arbitrary: i) (auto simp: nth_Cons split: nat.splits)

lemma depth_list_nth: "i < length js \<Longrightarrow> depth (js ! i) \<le> depth_list js"
  by (induction js arbitrary: i) (auto simp: nth_Cons le_max_iff_disj split: nat.splits)

lemma array_index_ref: "array_index ''$ref'' = None"
  by (simp add: array_index_def is_digit_def)

lemma child_repr:
  assumes "repr h (Ref a) D" "\<not> has_key x D" "depth D < Suc n" "key \<in> set (own_keys h a)"
  shows "\<exists>D'. repr h (get_key h a key) D' \<and> \<not> has_key x D' \<and> depth D' < n"
proof (cases D)
  case (JArr js)
  with assms(1) obtain vs where c: "cell_at h a = Some (Arr vs)" and r: "repr_list h vs js"
    by (auto split: option.splits cell.splits)
  with assms(4) obtain i where i: "key = Index i" "i < length vs"
    by (auto simp: own_keys_def)
  from r i have "repr h (vs ! i) (js ! i)" "i < length js"
    using repr_list_nth by auto
  moreover from this assms(2,3) JArr have "\<not> has_key x (js ! i)" "depth (js ! i) < n"
    using has_key_list_nth depth_list_nth[of i js] by auto
  ultimately show ?thesis using c i by (auto simp: get_key_def)
next
  case (JObj kjs)
  with assms(1) obtain kvs where c: "cell_at h a = Some (Obj kvs)" and r: "repr_fields h kvs kjs"
    by (auto split: option.splits cell.splits)
  with assms(4) obtain k where k: "key = Name k" "k \<in> fst ` set kvs"
    by (auto simp: own_keys_def)
  then obtain v where v: "map_of kvs k = Some v"
    by (metis domD dom_map_of_conv_image_fst)
  with r obtain j where j: "map_of kjs k = Some j" "repr h v j"
    using repr_fields_lookup by blast
  with assms(2,3) JObj have "\<not> has_key x j" "depth j < n"
    using has_key_fields_lookup depth_fields_lookup[of kjs k j] by auto
  with j c k v show ?thesis by (auto simp: get_key_def lookup_def)
qed (use assms(1) in auto)

lemma no_ref:
  assumes "repr h v D" "\<not> has_key ''$ref'' D"
  shows "js_get h v ''$ref'' = Undefined"
proof (cases D)
  case (JArr js)
  with assms(1) show ?thesis
    by (auto simp: array_index_ref split: val.splits option.splits cell.splits)
next
  case (JObj kjs)
  with assms(1) obtain a kvs where c: "v = Ref a" "cell_at h a = Some (Obj kvs)" and r: "repr_fields h kvs kjs"
    by (auto split: val.splits option.splits cell.splits)
  have "map_of kvs ''$ref'' = None"
  proof (cases "map_of kvs ''$ref''")
    case (Some w)
    with r obtain j where "map_of kjs ''$ref'' = Some j" using repr_fields_lookup by blast
    with assms(2) JObj show ?thesis using has_key_fields_dom by auto
  qed simp
  with c show ?thesis by (simp add: lookup_def)
qed (use assms(1) in \<open>auto simp: array_index_ref\<close>)

lemma processSchema_each_quiet:
  assumes IH: "\<And>v D. repr h v D \<Longrightarrow> \<not> has_key ''$ref'' D \<Longrightarrow> depth D < n \<Longrightarrow> processSchema n h v api = Some (Inr (h, v))"
      and "\<And>key. key \<in> set keys \<Longrightarrow> \<exists>D. repr h (get_key h a key) D \<and> \<not> has_key ''$ref'' D \<and> depth D < n"
      and "set keys \<subseteq> set (own_keys h a)"
  shows "processSchema_each n h a keys api = Some (Inr h)"
  using assms(2,3)
proof (induction keys)
  case Nil
  then show ?case by simp
next
  case (Cons key keys)
  from Cons.prems(1)[of key] obtain D where "repr h (get_key h a key) D" "\<not> has_key ''$ref'' D" "depth D < n"
    by auto
  then have "processSchema n h (get_key h a key) api = Some (Inr (h, get_key h a key))"
    by (rule IH)
  moreover have "set_key h a key (get_key h a key) = h"
    using Cons.prems(2) by (simp add: set_key_same)
  moreover have "processSchema_each n h a keys api = Some (Inr h)"
    using Cons by auto
  ultimately show ?case by simp
qed

lemma processSchema_quiet:
  "repr h v D \<Longrightarrow> \<not> has_key ''$ref'' D \<Longrightarrow> depth D < n \<Longrightarrow> processSchema n h v api = Some (Inr (h, v))"
proof (induction n arbitrary: v D)
  case 0
  then show ?case by simp
next
  case (Suc n)
  have nr: "js_get h v ''$ref'' = Undefined" using Suc.prems(1,2) by (rule no_ref)
  show ?case
  proof (cases v)
    case (Ref a)
    have "processSchema_each n h a (own_keys h a) api = Some (Inr h)"
    proof (rule processSchema_each_quiet)
      fix key assume "key \<in> set (own_keys h a)"
      with Suc.prems Ref show "\<exists>D. repr h (get_key h a key) D \<and> \<not> has_key ''$ref'' D \<and> depth D < n"
        using child_repr by blast
    qed (use Suc.IH in auto)
    with nr Ref show ?thesis by simp
  qed (use nr in auto)
qed


lemma alloc_ext:
  "alloc h D = (h', v) \<Longrightarrow> \<exists>xs. h' = h @ xs"
  "alloc_list h js = (h', vs) \<Longrightarrow> \<exists>xs. h' = h @ xs"
  "alloc_fields h kjs = (h', kvs) \<Longrightarrow> \<exists>xs. h' = h @ xs"
  by (induction h D and h js and h kjs arbitrary: h' v and h' vs and h' kvs
      rule: alloc_alloc_list_alloc_fields.induct)
     (fastforce split: prod.splits)+

lemma repr_append:
  "repr h v D \<Longrightarrow> repr (h @ xs) v D"
  "repr_list h vs js \<Longrightarrow> repr_list (h @ xs) vs js"
  "repr_fields h kvs kjs \<Longrightarrow> repr_fields (h @ xs) kvs kjs"
  by (induction h v D and h vs js and h kvs kjs rule: repr_repr_list_repr_fields.induct)
     (auto simp: cell_at_append split: val.splits option.splits cell.splits)

lemma cell_at_last: "cell_at (h @ [c]) (length h) = Some c"
  by (simp add: cell_at_def)

lemma alloc_repr:
  "alloc h D = (h', v) \<Longrightarrow> repr h' v D"
  "alloc_list h js = (h', vs) \<Longrightarrow> repr_list h' vs js"
  "alloc_fields h kjs = (h', kvs) \<Longrightarrow> repr_fields h' kvs kjs"
proof (induction h D and h js and h kjs arbitrary: h' v and h' vs and h' kvs
      rule: alloc_alloc_list_alloc_fields.induct)
  case (5 h js)
  then show ?case by (auto simp: cell_at_last repr_append split: prod.splits)
next
  case (6 h kjs)
  then show ?case by (auto simp: cell_at_last repr_append split: prod.splits)
next
  case (8 h j js)
  obtain h1 v1 where a: "alloc h j = (h1, v1)" by force
  obtain h2 vs2 where b: "alloc_list h1 js = (h2, vs2)" by force
  from alloc_ext(2)[OF b] obtain xs where "h2 = h1 @ xs" ..
  with 8 a b show ?case by (auto simp: repr_append)
next
  case (10 h k j kjs)
  obtain h1 v1 where a: "alloc h j = (h1, v1)" by force
  obtain h2 kvs2 where b: "alloc_fields h1 kjs = (h2, kvs2)" by force
  from alloc_ext(3)[OF b] obtain xs where "h2 = h1 @ xs" ..
  with 10 a b show ?case by (auto simp: repr_append)
qed auto

lemma JSONPath_select:
  "repr h v D \<Longrightarrow> select D p = Some D' \<Longrightarrow> \<exists>v'. JSONPath h v p = [v'] \<and> repr h v' D'"
proof (induction p arbitrary: v D)
  case Nil
  then show ?case by simp
next
  case (Cons k ks)
  show ?case
  proof (cases D)
    case (JArr js)
    with Cons.prems(1) obtain a vs where c: "v = Ref a" "cell_at h a = Some (Arr vs)" and r: "repr_list h vs js"
      by (auto split: val.splits option.splits cell.splits)
    from Cons.prems(2) JArr obtain i where i: "array_index k = Some i" "i < length js" "select (js ! i) ks = Some D'"
      by (auto split: option.splits if_splits)
    from r i have "repr h (vs ! i) (js ! i)" "i < length vs" using repr_list_nth by auto
    with Cons.IH[OF _ i(3)] c i show ?thesis by (auto simp: child_def)
  next
    case (JObj kjs)
    with Cons.prems(1) obtain a kvs where c: "v = Ref a" "cell_at h a = Some (Obj kvs)" and r: "repr_fields h kvs kjs"
      by (auto split: val.splits option.splits cell.splits)
    from Cons.prems(2) JObj obtain j where j: "map_of kjs k = Some j" "select j ks = Some D'"
      by (auto split: option.splits)
    with r obtain w where "map_of kvs k = Some w" "repr h w j" using repr_fields_lookup_rev by blast
    with Cons.IH[OF _ j(2)] c show ?thesis by (auto simp: child_def)
  qed (use Cons.prems(2) in auto)
qed

lemma select_has_key: "select D p = Some D' \<Longrightarrow> has_key x D' \<Longrightarrow> has_key x D"
proof (induction p arbitrary: D)
  case (Cons k ks)
  then show ?case
    by (cases D) (auto split: option.splits if_splits intro: has_key_fields_lookup has_key_list_nth)
qed simp

lemma select_depth: "select D p = Some D' \<Longrightarrow> depth D' \<le> depth D"
proof (induction p arbitrary: D)
  case (Cons k ks)
  show ?case
  proof (cases D)
    case (JArr js)
    with Cons.prems obtain i where i: "i < length js" "select (js ! i) ks = Some D'"
      by (auto split: option.splits if_splits)
    from Cons.IH[OF i(2)] depth_list_nth[OF i(1)] JArr show ?thesis by simp
  next
    case (JObj kjs)
    with Cons.prems obtain j where j: "map_of kjs k = Some j" "select j ks = Some D'"
      by (auto split: option.splits)
    from Cons.IH[OF j(2)] depth_fields_lookup[OF j(1)] JObj show ?thesis by simp
  qed (use Cons.prems in auto)
qed simp

section \<open>Pointers and quiet traversals\<close>









section \<open>Cells keep their shape\<close>



lemma keeps_append: "keeps h (h @ xs)"
  by (simp add: keeps_def nth_append)
















section \<open>The merge of allOf members\<close>


















section \<open>Evaluations\<close>




section \<open>dereferenceApi: what comes back\<close>

text \<open>
  C1. The claim: after \<^verbatim>\<open>dereferenceApi(D, S)\<close>, with every reference resolving, no node
  of the scope subtree of the returned document has a \<^verbatim>\<open>$ref\<close> key. The code at the
  document \<^verbatim>\<open>{"$ref": "#/a", "a": {"type": "string"}}\<close> with scope \<^verbatim>\<open>$\<close>: the reference of
  the scope node resolves, \<^verbatim>\<open>processSchema\<close> rebinds its local variable to the target
  and returns it, and the call returns the clone, whose root still has the \<^verbatim>\<open>$ref\<close> key:
  the returned document is deep-equal to the input.
\<close>

theorem scope_node_ref_kept:
  "returns (dereferenceApi 5 doc_root_ref []) doc_root_ref \<and> has_key ''$ref'' doc_root_ref"
  by code_simp

text \<open>
  C2. The claim: \<^verbatim>\<open>dereferenceApi\<close> takes a third argument \<^verbatim>\<open>ignorePaths\<close>, and with
  \<^verbatim>\<open>["$.components.x-stackQL-resources"]\<close> a call succeeds although that subtree holds a
  reference that does not resolve. The function has two parameters, \<^verbatim>\<open>apiDoc\<close> and
  \<^verbatim>\<open>startAt\<close>; a third argument of a call is dropped. At a document with such a
  reference under \<^verbatim>\<open>components.x-stackQL-resources\<close> and scope \<^verbatim>\<open>$\<close> the call throws.
\<close>

theorem unresolved_ref_in_ignored_subtree_fails:
  "dereferenceApi 10 doc_billing [] =
     Some (Inl (Error (resolve_msg ''#/components/x-stackQL-resources/missing'')))"
  by code_simp

text \<open>
  C3. The claim: every operation leaves its input document unmodified. \<^verbatim>\<open>dereferenceApi\<close>
  resolves against the caller's \<^verbatim>\<open>apiDoc\<close>, and \<^verbatim>\<open>resolveRef\<close> assigns the resolved
  children into the objects it walks. At
  \<^verbatim>\<open>{a: {$ref: "#/b"}, b: {c: {$ref: "#/d"}}, d: {type: "string"}}\<close> the caller's document
  has \<^verbatim>\<open>b.c = {type: "string"}\<close> after the call.
\<close>

theorem deref_mutates_input:
  "input_after (dereferenceApi 10 doc_nested_ref []) doc_nested_ref_after
   \<and> \<not> input_after (dereferenceApi 10 doc_nested_ref []) doc_nested_ref"
  by code_simp

section \<open>Composition keywords at the root and below\<close>

text \<open>
  C4. The claim: the document returned by \<^verbatim>\<open>flattenAllOf\<close> has no \<^verbatim>\<open>allOf\<close> key
  anywhere. At \<^verbatim>\<open>{allOf: [{type: "object"}]}\<close> the returned document is deep-equal to the
  input: the merged object that \<^verbatim>\<open>processAllOf\<close> returns for the root is dropped.
\<close>

theorem flatten_root_allOf_kept:
  "returns (flattenAllOf 10 doc_root_allOf) doc_root_allOf \<and> has_key ''allOf'' doc_root_allOf"
  by code_simp

text \<open>
  C5. The claim: after \<^verbatim>\<open>selectFirstOfOneOf\<close> (\<^verbatim>\<open>selectFirstOfAnyOf\<close>) no node has a
  \<^verbatim>\<open>oneOf\<close> (\<^verbatim>\<open>anyOf\<close>) key. At \<^verbatim>\<open>{oneOf: [{type: "string"}]}\<close> and at
  \<^verbatim>\<open>{anyOf: [{type: "string"}]}\<close> the returned document is deep-equal to the input; at
  \<^verbatim>\<open>{a: {oneOf: [{oneOf: [{type: "string"}]}]}}\<close> the node \<^verbatim>\<open>a\<close> of the result is the
  first alternative \<^verbatim>\<open>{oneOf: [{type: "string"}]}\<close>, whose own keyword is not looked at.
\<close>

theorem select_first_keyword_kept:
  "returns (selectFirstOfOneOf 10 doc_root_oneOf) doc_root_oneOf
   \<and> has_key ''oneOf'' doc_root_oneOf
   \<and> returns (selectFirstOfAnyOf 10 doc_root_anyOf) doc_root_anyOf
   \<and> has_key ''anyOf'' doc_root_anyOf
   \<and> returns (selectFirstOfOneOf 10 doc_nested_oneOf) doc_nested_oneOf_out
   \<and> has_key ''oneOf'' doc_nested_oneOf_out"
  by code_simp

section \<open>Failing pointers\<close>




section \<open>Chains of references\<close>



section \<open>Documents without references\<close>

text \<open>
  C9. A document with no \<^verbatim>\<open>$ref\<close> key anywhere, dereferenced from a scope path that
  matches a node, comes back deep-equal to the input, for every budget above the
  nesting depth of the document; the caller's document is deep-equal to it as well.
  Running \<^verbatim>\<open>dereferenceApi\<close> again on such an output is the same statement once more.
\<close>

theorem ref_free_unchanged:
  assumes "\<not> has_key ''$ref'' D" and "select D startAt = Some S" and "depth D < n"
  shows "returns (dereferenceApi n D startAt) D \<and> input_after (dereferenceApi n D startAt) D"
proof -
  obtain h0 apiDoc where a0: "alloc [] D = (h0, apiDoc)" by force
  obtain h1 dd where a1: "alloc h0 D = (h1, dd)" by force
  from alloc_ext(1)[OF a1] obtain xs where h1: "h1 = h0 @ xs" ..
  have r0: "repr h1 apiDoc D" using alloc_repr(1)[OF a0] h1 by (simp add: repr_append)
  have r1: "repr h1 dd D" using alloc_repr(1)[OF a1] .
  from JSONPath_select[OF r1 assms(2)] obtain v' where v': "JSONPath h1 dd startAt = [v']" "repr h1 v' S"
    by blast
  have "\<not> has_key ''$ref'' S" using assms(1,2) select_has_key by blast
  moreover have "depth S < n" using select_depth[OF assms(2)] assms(3) by simp
  ultimately have "processSchema n h1 v' apiDoc = Some (Inr (h1, v'))"
    using v'(2) processSchema_quiet by blast
  with a0 a1 v' r0 r1 show ?thesis
    by (simp add: dereferenceApi_def returns_def input_after_def)
qed

theorem ref_free_unchanged_witness:
  "\<not> has_key ''$ref'' (JObj [(''a'', JObj [(''type'', JStr ''string'')])])
   \<and> select (JObj [(''a'', JObj [(''type'', JStr ''string'')])]) [''a'']
       = Some (JObj [(''type'', JStr ''string'')])
   \<and> depth (JObj [(''a'', JObj [(''type'', JStr ''string'')])]) < 3
   \<and> returns (dereferenceApi 3 (JObj [(''a'', JObj [(''type'', JStr ''string'')])]) [''a''])
        (JObj [(''a'', JObj [(''type'', JStr ''string'')])])
   \<and> input_after (dereferenceApi 3 (JObj [(''a'', JObj [(''type'', JStr ''string'')])]) [''a''])
        (JObj [(''a'', JObj [(''type'', JStr ''string'')])])"
  using ref_free_unchanged [of "JObj [(''a'', JObj [(''type'', JStr ''string'')])]" "[''a'']"
      "JObj [(''type'', JStr ''string'')]" 3]
  by simp

section \<open>The merge rule\<close>



section \<open>The root keeps its keys\<close>



end
